theory Spec2Isabelle
  imports Complex_Main
begin

section \<open>Python values and the built-in operators that probability.py applies to them\<close>

text \<open>
  The functions of class \<open>P_fn\<close> (src/probability.py, lines 152 to 248) are dynamically
  typed: an input, a result of an evaluator and a result of a condition may be any Python
  object. The objects modelled here are \<open>None\<close>, \<open>bool\<close>, \<open>int\<close>, \<open>float\<close>, \<open>str\<close> and
  \<open>tuple\<close>. A \<open>float\<close> is modelled by the rational number it stands for: rounding,
  infinities and NaN are outside the model. Every exception the code can raise is a value
  of type \<open>error\<close>, and a computation that may raise has a result of type
  \<open>error + 'a\<close>.
\<close>

datatype error = TypeError | ZeroDivisionError | IndexError | NameError

datatype pyval =
    VNone
  | VBool bool
  | VInt int
  | VFloat rat
  | VStr string
  | VTuple "pyval list"

datatype num = NInt int | NFloat rat

text \<open>\<open>bool\<close> is a subclass of \<open>int\<close>: \<open>True\<close> counts as 1 and \<open>False\<close> as 0 in arithmetic.\<close>

fun as_num :: "pyval \<Rightarrow> num option" where
  "as_num (VBool b) = Some (NInt (if b then 1 else 0))"
| "as_num (VInt i) = Some (NInt i)"
| "as_num (VFloat q) = Some (NFloat q)"
| "as_num VNone = None"
| "as_num (VStr s) = None"
| "as_num (VTuple xs) = None"

fun num_val :: "num \<Rightarrow> rat" where
  "num_val (NInt i) = of_int i"
| "num_val (NFloat q) = q"

fun of_num :: "num \<Rightarrow> pyval" where
  "of_num (NInt i) = VInt i"
| "of_num (NFloat q) = VFloat q"

text \<open>Sequencing of computations that may raise: the first exception propagates.\<close>

definition ebind :: "error + 'a \<Rightarrow> ('a \<Rightarrow> error + 'b) \<Rightarrow> error + 'b" where
  "ebind m k = (case m of Inl e \<Rightarrow> Inl e | Inr v \<Rightarrow> k v)"

text \<open>\<open>bool(v)\<close>, the truth value Python gives an object in a conditional.\<close>

fun truthy :: "pyval \<Rightarrow> bool" where
  "truthy VNone = False"
| "truthy (VBool b) = b"
| "truthy (VInt i) = (i \<noteq> 0)"
| "truthy (VFloat q) = (q \<noteq> 0)"
| "truthy (VStr s) = (s \<noteq> [])"
| "truthy (VTuple xs) = (xs \<noteq> [])"

text \<open>
  \<open>a == b\<close>: numbers compare by value across \<open>bool\<close>, \<open>int\<close> and \<open>float\<close>, strings and
  tuples compare element by element, and objects of unrelated types are unequal.
\<close>

fun py_eq :: "pyval \<Rightarrow> pyval \<Rightarrow> bool"
  and py_eq_list :: "pyval list \<Rightarrow> pyval list \<Rightarrow> bool" where
  "py_eq (VTuple xs) (VTuple ys) = py_eq_list xs ys"
| "py_eq (VStr s) (VStr t) = (s = t)"
| "py_eq VNone VNone = True"
| "py_eq a b =
     (case as_num a of
        None \<Rightarrow> False
      | Some m \<Rightarrow> (case as_num b of None \<Rightarrow> False | Some n \<Rightarrow> num_val m = num_val n))"
| "py_eq_list [] [] = True"
| "py_eq_list (x # xs) (y # ys) = (py_eq x y \<and> py_eq_list xs ys)"
| "py_eq_list [] (y # ys) = False"
| "py_eq_list (x # xs) [] = False"

text \<open>\<open>x in ys\<close> for a list display \<open>ys\<close>: some element equals \<open>x\<close>.\<close>

fun py_in :: "pyval \<Rightarrow> pyval list \<Rightarrow> bool" where
  "py_in x [] = False"
| "py_in x (y # ys) = (py_eq y x \<or> py_in x ys)"

text \<open>
  \<open>a <= b\<close>: defined between numbers, between strings (by code point) and between
  tuples (at the first pair of unequal elements, else by length); a \<open>TypeError\<close> otherwise,
  in particular between a number and a tuple or a string.
\<close>

fun str_le :: "string \<Rightarrow> string \<Rightarrow> bool" where
  "str_le [] t = True"
| "str_le (c # cs) [] = False"
| "str_le (c # cs) (d # ds) =
     (if c = d then str_le cs ds else (of_char c :: nat) < of_char d)"

fun py_le :: "pyval \<Rightarrow> pyval \<Rightarrow> error + bool"
  and py_le_list :: "pyval list \<Rightarrow> pyval list \<Rightarrow> error + bool" where
  "py_le (VTuple xs) (VTuple ys) = py_le_list xs ys"
| "py_le (VStr s) (VStr t) = Inr (str_le s t)"
| "py_le a b =
     (case as_num a of
        None \<Rightarrow> Inl TypeError
      | Some m \<Rightarrow>
          (case as_num b of None \<Rightarrow> Inl TypeError | Some n \<Rightarrow> Inr (num_val m \<le> num_val n)))"
| "py_le_list [] ys = Inr True"
| "py_le_list (x # xs) [] = Inr False"
| "py_le_list (x # xs) (y # ys) = (if py_eq x y then py_le_list xs ys else py_le x y)"

text \<open>
  \<open>a + b\<close>: the sum of two numbers (an \<open>int\<close> when neither is a \<open>float\<close>), the
  concatenation of two strings or of two tuples, a \<open>TypeError\<close> otherwise.
\<close>

fun num_add :: "num \<Rightarrow> num \<Rightarrow> num" where
  "num_add (NInt i) (NInt j) = NInt (i + j)"
| "num_add a b = NFloat (num_val a + num_val b)"

fun py_add :: "pyval \<Rightarrow> pyval \<Rightarrow> error + pyval" where
  "py_add (VStr s) (VStr t) = Inr (VStr (s @ t))"
| "py_add (VTuple xs) (VTuple ys) = Inr (VTuple (xs @ ys))"
| "py_add a b =
     (case as_num a of
        None \<Rightarrow> Inl TypeError
      | Some m \<Rightarrow>
          (case as_num b of None \<Rightarrow> Inl TypeError | Some n \<Rightarrow> Inr (of_num (num_add m n))))"

text \<open>
  \<open>a * b\<close>: the product of two numbers, the repetition of a string or tuple by an
  \<open>int\<close> (empty for a count below 1), a \<open>TypeError\<close> otherwise.
\<close>

fun num_mul :: "num \<Rightarrow> num \<Rightarrow> num" where
  "num_mul (NInt i) (NInt j) = NInt (i * j)"
| "num_mul a b = NFloat (num_val a * num_val b)"

fun repeat :: "pyval \<Rightarrow> int \<Rightarrow> error + pyval" where
  "repeat (VStr s) n = Inr (VStr (concat (replicate (nat n) s)))"
| "repeat (VTuple xs) n = Inr (VTuple (concat (replicate (nat n) xs)))"
| "repeat v n = Inl TypeError"

definition py_mul :: "pyval \<Rightarrow> pyval \<Rightarrow> error + pyval" where
  "py_mul a b =
     (case as_num a of
        Some m \<Rightarrow>
          (case as_num b of
             Some n \<Rightarrow> Inr (of_num (num_mul m n))
           | None \<Rightarrow> (case m of NInt i \<Rightarrow> repeat b i | NFloat q \<Rightarrow> Inl TypeError))
      | None \<Rightarrow>
          (case as_num b of
             Some (NInt j) \<Rightarrow> repeat a j
           | Some (NFloat q) \<Rightarrow> Inl TypeError
           | None \<Rightarrow> Inl TypeError))"

text \<open>
  \<open>a / b\<close>, true division: always a \<open>float\<close>, a \<open>ZeroDivisionError\<close> when the divisor is
  zero, a \<open>TypeError\<close> when an operand is no number.
\<close>

definition py_truediv :: "pyval \<Rightarrow> pyval \<Rightarrow> error + pyval" where
  "py_truediv a b =
     (case as_num a of
        None \<Rightarrow> Inl TypeError
      | Some m \<Rightarrow>
          (case as_num b of
             None \<Rightarrow> Inl TypeError
           | Some n \<Rightarrow>
               (if num_val n = 0 then Inl ZeroDivisionError
                else Inr (VFloat (num_val m / num_val n)))))"

text \<open>\<open>t[i]\<close> on a tuple: a negative index counts from the end, out of range raises.\<close>

definition tuple_getitem :: "pyval list \<Rightarrow> int \<Rightarrow> error + pyval" where
  "tuple_getitem xs i =
     (if 0 \<le> i
      then (if nat i < length xs then Inr (xs ! nat i) else Inl IndexError)
      else (if nat (- i) \<le> length xs then Inr (xs ! (length xs - nat (- i)))
            else Inl IndexError))"

section \<open>Class \<open>P_fn\<close>\<close>

text \<open>
  A callable is called with the positional arguments \<open>*args\<close> and returns or raises. The
  attribute \<open>value\<close> is a callable or a constant (\<open>Union[Callable, float]\<close>), told apart
  by \<open>callable(self.value)\<close>; the attribute \<open>condition\<close> is a callable or \<open>None\<close>.
\<close>

type_synonym callable = "pyval list \<Rightarrow> error + pyval"

datatype evaluator = Callable callable | Scalar pyval

record P_fn =
  value' :: evaluator
  condition :: "callable option"

text \<open>\<open>__init__\<close> (lines 156 to 165) stores both arguments and checks nothing.\<close>

definition init :: "evaluator \<Rightarrow> callable option \<Rightarrow> P_fn" where
  "init v c = \<lparr>value' = v, condition = c\<rparr>"

text \<open>
  The test \<open>self.condition is None or self.condition(*args)\<close> of \<open>__call__\<close>: the
  condition is called only when there is one, and its result is read as a truth value.
\<close>

definition condition_holds :: "P_fn \<Rightarrow> pyval list \<Rightarrow> error + bool" where
  "condition_holds self args =
     (case condition self of
        None \<Rightarrow> Inr True
      | Some c \<Rightarrow> (case c args of Inl e \<Rightarrow> Inl e | Inr v \<Rightarrow> Inr (truthy v)))"

text \<open>
  \<open>__call__\<close> (lines 167 to 180). In both branches the conditional expression evaluates
  its test first and then only the operand it selects.
\<close>

definition call :: "P_fn \<Rightarrow> pyval list \<Rightarrow> error + pyval" where
  "call self args =
     (case value' self of
        Callable fn \<Rightarrow>
          (case condition_holds self args of
             Inl e \<Rightarrow> Inl e
           | Inr ok \<Rightarrow> (if ok then fn args else Inr (VInt 0)))
      | Scalar v \<Rightarrow>
          (case condition_holds self args of
             Inl e \<Rightarrow> Inl e
           | Inr ok \<Rightarrow> (if ok then Inr v else Inr (VInt 0))))"

text \<open>
  \<open>given\<close> (lines 182 to 195). \<open>self.condition and condition\<close> is Python's \<open>and\<close> on two
  objects: it yields the left operand when that is false as a truth value and the right
  operand otherwise. A function object is true and \<open>None\<close> is false.
\<close>

fun object_truthy :: "callable option \<Rightarrow> bool" where
  "object_truthy None = False"
| "object_truthy (Some c) = True"

definition py_and :: "callable option \<Rightarrow> callable option \<Rightarrow> callable option" where
  "py_and a b = (if object_truthy a then b else a)"

definition given :: "P_fn \<Rightarrow> callable option \<Rightarrow> bool \<Rightarrow> P_fn" where
  "given self cond replace =
     (if \<not> replace \<and> condition self \<noteq> None
      then init (value' self) (py_and (condition self) cond)
      else init (value' self) cond)"

text \<open>
  \<open>conditional\<close> (lines 197 to 207). The new evaluator is a lambda of one parameter, so
  a call with another number of arguments raises \<open>TypeError\<close>. It evaluates \<open>other(x)\<close>
  for the test, and \<open>self(x)\<close> and \<open>other(x)\<close> again for the quotient.
\<close>

definition conditional :: "P_fn \<Rightarrow> P_fn \<Rightarrow> P_fn" where
  "conditional self other =
     init
       (Callable (\<lambda>args.
          case args of
            [x] \<Rightarrow>
              ebind (call other [x]) (\<lambda>d.
                if \<not> py_eq d (VInt 0)
                then ebind (call self [x]) (\<lambda>a. ebind (call other [x]) (\<lambda>b. py_truediv a b))
                else Inr (VInt 0))
          | _ \<Rightarrow> Inl TypeError))
       (condition self)"

text \<open>\<open>independent\<close> (lines 209 to 220): no condition is passed to the constructor.\<close>

definition independent :: "P_fn \<Rightarrow> P_fn \<Rightarrow> P_fn" where
  "independent self other =
     init
       (Callable (\<lambda>args.
          case args of
            [x] \<Rightarrow> ebind (call self [x]) (\<lambda>a. ebind (call other [x]) (\<lambda>b. py_add a b))
          | _ \<Rightarrow> Inl TypeError))
       None"

text \<open>
  \<open>mutually_exclusive\<close> (lines 222 to 223) is \<open>return independent(self, other)\<close>: the
  bare name \<open>independent\<close> is looked up among the names bound at module level (and then
  among the built-ins, which have no such name), not among the attributes of the class.
  \<open>module_globals\<close> lists what probability.py binds at module level, on either branch of
  its \<open>try\<close> statement.
\<close>

definition module_globals :: "string list" where
  "module_globals =
     [''Callable'', ''Optional'', ''Union'', ''functools'', ''unittest'', ''math'',
      ''Decimal'', ''Fraction'', ''warnings'', ''o'', ''DisplayObject'',
      ''TextDisplayObject'', ''Markdown'', ''display'', ''Latex'', ''in_notebook'', ''P'',
      ''test_probability_class'', ''P_fn'', ''test_P_fnambda'']"

definition mutually_exclusive :: "P_fn \<Rightarrow> P_fn \<Rightarrow> error + P_fn" where
  "mutually_exclusive self other =
     (if ''independent'' \<in> set module_globals then Inr (independent self other)
      else Inl NameError)"

text \<open>
  \<open>dependent\<close> (lines 225 to 236). For a tuple the operands are evaluated from left to
  right: \<open>x[0]\<close>, \<open>self(x[0])\<close>, \<open>x[1]\<close>, \<open>other(x[1])\<close>, then the product.
\<close>

definition dependent :: "P_fn \<Rightarrow> P_fn \<Rightarrow> P_fn" where
  "dependent self other =
     init
       (Callable (\<lambda>args.
          case args of
            [x] \<Rightarrow>
              (case x of
                 VTuple xs \<Rightarrow>
                   ebind (tuple_getitem xs 0) (\<lambda>x0.
                   ebind (call self [x0]) (\<lambda>a.
                   ebind (tuple_getitem xs 1) (\<lambda>x1.
                   ebind (call other [x1]) (\<lambda>b. py_mul a b))))
               | _ \<Rightarrow> ebind (call self [x]) (\<lambda>a. ebind (call other [x]) (\<lambda>b. py_mul a b)))
          | _ \<Rightarrow> Inl TypeError))
       None"

section \<open>The probability functions of \<open>test_P_fnambda\<close>\<close>

text \<open>
  Lines 252, 261, 268 and 269. \<open>1 <= x <= 6\<close> is \<open>1 <= x and x <= 6\<close> with \<open>x\<close>
  evaluated once; \<open>1/6\<close> and \<open>1/2\<close> are true divisions of two \<open>int\<close>s.
\<close>

definition die_fn :: callable where
  "die_fn args =
     (case args of
        [x] \<Rightarrow>
          ebind (py_le (VInt 1) x) (\<lambda>lo.
            if lo
            then ebind (py_le x (VInt 6)) (\<lambda>hi.
                   if hi then py_truediv (VInt 1) (VInt 6) else Inr (VInt 0))
            else Inr (VInt 0))
      | _ \<Rightarrow> Inl TypeError)"

definition half_on :: "pyval list \<Rightarrow> callable" where
  "half_on ys args =
     (case args of
        [x] \<Rightarrow> (if py_in x ys then py_truediv (VInt 1) (VInt 2) else Inr (VInt 0))
      | _ \<Rightarrow> Inl TypeError)"

definition p_die :: P_fn where
  "p_die = init (Callable die_fn) None"

definition p_coin :: P_fn where
  "p_coin = init (Callable (half_on [VStr ''H'', VStr ''T''])) None"

definition p_A :: P_fn where
  "p_A = init (Callable (half_on [VStr ''A'', VStr ''B''])) None"

definition p_B :: P_fn where
  "p_B = init (Callable (half_on [VStr ''B'', VStr ''C''])) None"

section \<open>Inputs and observations used in the statements\<close>

text \<open>
  Two conditions a caller may pass, \<open>lambda x: n <= x\<close> and \<open>lambda x: x <= n\<close>, for
  the concrete instances below.
\<close>

definition ge_fn :: "int \<Rightarrow> callable" where
  "ge_fn n args =
     (case args of
        [x] \<Rightarrow> ebind (py_le (VInt n) x) (\<lambda>b. Inr (VBool b))
      | _ \<Rightarrow> Inl TypeError)"

definition le_fn :: "int \<Rightarrow> callable" where
  "le_fn n args =
     (case args of
        [x] \<Rightarrow> ebind (py_le x (VInt n)) (\<lambda>b. Inr (VBool b))
      | _ \<Rightarrow> Inl TypeError)"

text \<open>\<open>isinstance(x, tuple)\<close>.\<close>

fun is_tuple :: "pyval \<Rightarrow> bool" where
  "is_tuple (VTuple xs) = True"
| "is_tuple v = False"

text \<open>
  The number a call returned, if it returned one; whether it returned a number between two
  bounds; whether it returned an object that \<open>==\<close> a given one.
\<close>

definition result_num :: "error + pyval \<Rightarrow> rat option" where
  "result_num r = (case r of Inl e \<Rightarrow> None | Inr v \<Rightarrow> map_option num_val (as_num v))"

definition in_range :: "rat \<Rightarrow> rat \<Rightarrow> error + pyval \<Rightarrow> bool" where
  "in_range lo hi r = (case result_num r of None \<Rightarrow> False | Some q \<Rightarrow> lo \<le> q \<and> q \<le> hi)"

definition result_is :: "error + pyval \<Rightarrow> pyval \<Rightarrow> bool" where
  "result_is r v = (case r of Inl e \<Rightarrow> False | Inr w \<Rightarrow> py_eq w v)"

section \<open>Evaluation: \<open>__call__\<close>\<close>

lemma call_no_condition:
  "condition f = None \<Longrightarrow>
   call f args = (case value' f of Callable fn \<Rightarrow> fn args | Scalar s \<Rightarrow> Inr s)"
  by (simp add: call_def condition_holds_def split: evaluator.splits)

lemma call_condition_true:
  "condition f = Some c \<Longrightarrow> c args = Inr v \<Longrightarrow> truthy v \<Longrightarrow>
   call f args = (case value' f of Callable fn \<Rightarrow> fn args | Scalar s \<Rightarrow> Inr s)"
  by (simp add: call_def condition_holds_def split: evaluator.splits)

lemma call_condition_false:
  "condition f = Some c \<Longrightarrow> c args = Inr v \<Longrightarrow> \<not> truthy v \<Longrightarrow> call f args = Inr (VInt 0)"
  by (simp add: call_def condition_holds_def split: evaluator.splits)

text \<open>An exception raised by the condition itself is not caught.\<close>

lemma call_condition_raises:
  "condition f = Some c \<Longrightarrow> c args = Inl e \<Longrightarrow> call f args = Inl e"
  by (simp add: call_def condition_holds_def split: evaluator.splits)

lemma ge_fn_int: "ge_fn n [VInt i] = Inr (VBool (n \<le> i))"
  by (simp add: ge_fn_def ebind_def)

lemma le_fn_int: "le_fn n [VInt i] = Inr (VBool (i \<le> n))"
  by (simp add: le_fn_def ebind_def)

lemma die_fn_int:
  "die_fn [VInt i] = (if 1 \<le> i \<and> i \<le> 6 then Inr (VFloat (1 / 6)) else Inr (VInt 0))"
  by (simp add: die_fn_def ebind_def py_truediv_def)

text \<open>
  C1. When \<open>f\<close> has a condition and the condition returns a false object at the
  arguments, the call returns the \<open>int\<close> 0, and it does so whatever the evaluator is, also
  one that would raise: the evaluator is not invoked. When \<open>f\<close> has no condition, or the
  condition returns a true object, the call returns what the evaluator returns at the
  arguments if the evaluator is callable, and the constant itself, whatever the arguments,
  if it is a scalar.
\<close>

theorem call_contract:
  "(condition f = Some c \<and> c args = Inr v \<and> \<not> truthy v \<longrightarrow>
      call f args = Inr (VInt 0) \<and> (\<forall>ev. call (f\<lparr>value' := ev\<rparr>) args = Inr (VInt 0)))
   \<and> (condition f = None \<or> (condition f = Some c \<and> c args = Inr v \<and> truthy v) \<longrightarrow>
      call f args = (case value' f of Callable fn \<Rightarrow> fn args | Scalar s \<Rightarrow> Inr s))"
proof (intro conjI impI allI)
  assume h: "condition f = Some c \<and> c args = Inr v \<and> \<not> truthy v"
  then show "call f args = Inr (VInt 0)"
    by (simp add: call_condition_false)
  fix ev
  from h have "condition (f\<lparr>value' := ev\<rparr>) = Some c" by simp
  with h show "call (f\<lparr>value' := ev\<rparr>) args = Inr (VInt 0)"
    by (blast intro: call_condition_false)
next
  assume "condition f = None \<or> (condition f = Some c \<and> c args = Inr v \<and> truthy v)"
  then show "call f args = (case value' f of Callable fn \<Rightarrow> fn args | Scalar s \<Rightarrow> Inr s)"
    by (auto simp: call_no_condition call_condition_true)
qed

theorem call_contract_witness:
  "call (init (Callable die_fn) (Some (ge_fn 4))) [VInt 3] = Inr (VInt 0)
   \<and> call (init (Callable (\<lambda>args. Inl ZeroDivisionError)) (Some (ge_fn 4))) [VInt 3]
       = Inr (VInt 0)
   \<and> call (init (Callable die_fn) (Some (ge_fn 4))) [VInt 5] = Inr (VFloat (1 / 6))
   \<and> call (init (Scalar (VFloat (1 / 2))) None) [VInt 5] = Inr (VFloat (1 / 2))"
proof -
  let ?f = "init (Callable die_fn) (Some (ge_fn 4))"
  let ?k = "init (Scalar (VFloat (1 / 2))) None"
  have lo: "condition ?f = Some (ge_fn 4) \<and> ge_fn 4 [VInt 3] = Inr (VBool False)
            \<and> \<not> truthy (VBool False)"
    by (simp add: init_def ge_fn_int)
  have hi: "condition ?f = None
            \<or> (condition ?f = Some (ge_fn 4) \<and> ge_fn 4 [VInt 5] = Inr (VBool True)
               \<and> truthy (VBool True))"
    by (simp add: init_def ge_fn_int)
  have no: "condition ?k = None
            \<or> (condition ?k = Some (ge_fn 4) \<and> ge_fn 4 [VInt 5] = Inr VNone \<and> truthy VNone)"
    by (simp add: init_def)
  from lo call_contract [of ?f "ge_fn 4" "[VInt 3]" "VBool False"]
  have a: "call ?f [VInt 3] = Inr (VInt 0)"
    and b: "\<forall>ev. call (?f\<lparr>value' := ev\<rparr>) [VInt 3] = Inr (VInt 0)"
    by blast+
  from b have b':
    "call (?f\<lparr>value' := Callable (\<lambda>args. Inl ZeroDivisionError)\<rparr>) [VInt 3] = Inr (VInt 0)"
    by blast
  from hi call_contract [of ?f "ge_fn 4" "[VInt 5]" "VBool True"]
  have c: "call ?f [VInt 5] = (case value' ?f of Callable fn \<Rightarrow> fn [VInt 5] | Scalar s \<Rightarrow> Inr s)"
    by blast
  from no call_contract [of ?k "ge_fn 4" "[VInt 5]" VNone]
  have d: "call ?k [VInt 5] = (case value' ?k of Callable fn \<Rightarrow> fn [VInt 5] | Scalar s \<Rightarrow> Inr s)"
    by blast
  from a b' c d show ?thesis
    by (simp add: init_def die_fn_int)
qed

section \<open>Facts shared by the combinators\<close>

lemma call_callable_no_condition: "call (init (Callable fn) None) args = fn args"
  by (simp add: call_def init_def condition_holds_def)

lemma call_returns_condition:
  "call f args = Inr a \<Longrightarrow> \<exists>ok. condition_holds f args = Inr ok \<and> (ok \<or> a = VInt 0)"
  by (auto simp: call_def split: evaluator.splits sum.splits if_splits)

lemma num_val_add: "num_val (num_add m n) = num_val m + num_val n"
  by (cases m; cases n) simp_all

lemma num_val_mul: "num_val (num_mul m n) = num_val m * num_val n"
  by (cases m; cases n) simp_all

lemma as_num_of_num: "as_num (of_num n) = Some n"
  by (cases n) simp_all

lemma result_num_Inr:
  "result_num r = Some p \<Longrightarrow> \<exists>v n. r = Inr v \<and> as_num v = Some n \<and> num_val n = p"
  by (auto simp: result_num_def split: sum.splits)

lemma py_add_num:
  "as_num a = Some m \<Longrightarrow> as_num b = Some n \<Longrightarrow> py_add a b = Inr (of_num (num_add m n))"
  by (cases a; cases b) simp_all

lemma py_mul_num:
  "as_num a = Some m \<Longrightarrow> as_num b = Some n \<Longrightarrow> py_mul a b = Inr (of_num (num_mul m n))"
  by (simp add: py_mul_def)

lemma result_num_add:
  assumes "result_num r = Some p" and "result_num s = Some q"
  shows "result_num (ebind r (\<lambda>a. ebind s (\<lambda>b. py_add a b))) = Some (p + q)"
proof -
  from assms(1) obtain a m where a: "r = Inr a" "as_num a = Some m" "num_val m = p"
    using result_num_Inr by blast
  from assms(2) obtain b n where b: "s = Inr b" "as_num b = Some n" "num_val n = q"
    using result_num_Inr by blast
  from a b show ?thesis
    by (simp add: ebind_def py_add_num result_num_def as_num_of_num num_val_add)
qed

lemma result_num_mul:
  assumes "result_num r = Some p" and "result_num s = Some q"
  shows "result_num (ebind r (\<lambda>a. ebind s (\<lambda>b. py_mul a b))) = Some (p * q)"
proof -
  from assms(1) obtain a m where a: "r = Inr a" "as_num a = Some m" "num_val m = p"
    using result_num_Inr by blast
  from assms(2) obtain b n where b: "s = Inr b" "as_num b = Some n" "num_val n = q"
    using result_num_Inr by blast
  from a b show ?thesis
    by (simp add: ebind_def result_num_def as_num_of_num num_val_mul py_mul_num)
qed

lemma call_p_die_int:
  "call p_die [VInt i] = (if 1 \<le> i \<and> i \<le> 6 then Inr (VFloat (1 / 6)) else Inr (VInt 0))"
  by (simp add: p_die_def call_callable_no_condition die_fn_int)

lemma call_p_die_tuple: "call p_die [VTuple xs] = Inl TypeError"
  by (simp add: p_die_def call_callable_no_condition die_fn_def ebind_def)

lemma call_p_coin_str:
  "call p_coin [VStr s] = (if s = ''H'' \<or> s = ''T'' then Inr (VFloat (1 / 2)) else Inr (VInt 0))"
  by (auto simp: p_coin_def call_callable_no_condition half_on_def py_truediv_def)

lemma call_p_coin_int: "call p_coin [VInt i] = Inr (VInt 0)"
  by (simp add: p_coin_def call_callable_no_condition half_on_def)

lemma half_on_str:
  "half_on ys [VStr s] = (if py_in (VStr s) ys then Inr (VFloat (1 / 2)) else Inr (VInt 0))"
  by (simp add: half_on_def py_truediv_def)

lemma call_p_A:
  "call p_A [VStr s] = (if s = ''A'' \<or> s = ''B'' then Inr (VFloat (1 / 2)) else Inr (VInt 0))"
  by (auto simp: p_A_def call_callable_no_condition half_on_str)

lemma call_p_B:
  "call p_B [VStr s] = (if s = ''B'' \<or> s = ''C'' then Inr (VFloat (1 / 2)) else Inr (VInt 0))"
  by (auto simp: p_B_def call_callable_no_condition half_on_str)

lemma condition_holds_p_A: "condition_holds p_A args = Inr True"
  by (simp add: p_A_def init_def condition_holds_def)

lemma condition_holds_p_B: "condition_holds p_B args = Inr True"
  by (simp add: p_B_def init_def condition_holds_def)

lemma given_sets_condition: "given f c r = init (value' f) c"
  by (cases "condition f") (simp_all add: given_def py_and_def)

section \<open>\<open>conditional\<close>\<close>

lemma condition_holds_conditional:
  "condition_holds (conditional f g) args = condition_holds f args"
  by (simp add: condition_holds_def conditional_def init_def)

lemma call_conditional:
  "call (conditional f g) [x] =
     (case condition_holds f [x] of
        Inl e \<Rightarrow> Inl e
      | Inr ok \<Rightarrow>
          (if ok
           then ebind (call g [x]) (\<lambda>d.
                  if \<not> py_eq d (VInt 0)
                  then ebind (call f [x]) (\<lambda>a. ebind (call g [x]) (\<lambda>b. py_truediv a b))
                  else Inr (VInt 0))
           else Inr (VInt 0)))"
  unfolding call_def [of "conditional f g"] condition_holds_conditional
  by (simp add: conditional_def init_def split: sum.splits)

lemma py_truediv_self_eq: "py_truediv a b = Inr q \<Longrightarrow> py_eq q q"
  by (auto simp: py_truediv_def split: option.splits if_splits)

lemma py_truediv_zero_eq: "py_truediv (VInt 0) b = Inr q \<Longrightarrow> py_eq (VInt 0) q"
  by (auto simp: py_truediv_def split: option.splits if_splits)

lemma conditional_quotient_case:
  assumes f: "call f [x] = Inr a" and g: "call g [x] = Inr b"
    and nz: "\<not> py_eq b (VInt 0)" and q: "py_truediv a b = Inr q"
  shows "\<exists>r. call (conditional f g) [x] = Inr r \<and> py_eq r q"
proof -
  from f obtain ok where ok: "condition_holds f [x] = Inr ok" and z: "ok \<or> a = VInt 0"
    using call_returns_condition by blast
  show ?thesis
  proof (cases ok)
    case True
    with ok f g nz q have "call (conditional f g) [x] = Inr q"
      by (simp add: call_conditional ebind_def)
    with q show ?thesis
      by (blast intro: py_truediv_self_eq)
  next
    case False
    with ok have "call (conditional f g) [x] = Inr (VInt 0)"
      by (simp add: call_conditional)
    moreover from False z q have "py_eq (VInt 0) q"
      by (blast intro: py_truediv_zero_eq)
    ultimately show ?thesis
      by blast
  qed
qed

lemma conditional_zero_case:
  assumes f: "call f [x] = Inr a" and g: "call g [x] = Inr b" and z: "py_eq b (VInt 0)"
  shows "call (conditional f g) [x] = Inr (VInt 0)"
proof -
  from f obtain ok where ok: "condition_holds f [x] = Inr ok"
    using call_returns_condition by blast
  with g z show ?thesis
    by (simp add: call_conditional ebind_def)
qed

text \<open>
  C2. Where \<open>f\<close> and \<open>g\<close> return at \<open>x\<close> and \<open>g(x) != 0\<close>, \<open>f.conditional(g)(x)\<close>
  returns an object that \<open>==\<close> the quotient \<open>f(x) / g(x)\<close>; where \<open>g(x) == 0\<close> it
  returns the \<open>int\<close> 0. The result of \<open>f.conditional(g)\<close> carries the condition of \<open>f\<close>.
  For \<open>p_A\<close> and \<open>p_B\<close> of the test, the value at \<open>'B'\<close> is the \<open>float\<close> 1 and the
  value at \<open>'A'\<close> is the \<open>int\<close> 0, which \<open>==\<close> the \<open>float\<close> 0.
\<close>

theorem conditional_quotient:
  "(call f [x] = Inr a \<and> call g [x] = Inr b \<and> \<not> py_eq b (VInt 0) \<and> py_truediv a b = Inr q \<longrightarrow>
      (\<exists>r. call (conditional f g) [x] = Inr r \<and> py_eq r q))
   \<and> (call f [x] = Inr a \<and> call g [x] = Inr b \<and> py_eq b (VInt 0) \<longrightarrow>
      call (conditional f g) [x] = Inr (VInt 0))
   \<and> condition (conditional f g) = condition f
   \<and> call (conditional p_A p_B) [VStr ''B''] = Inr (VFloat 1)
   \<and> py_eq (VFloat 1) (VFloat 1)
   \<and> call (conditional p_A p_B) [VStr ''A''] = Inr (VInt 0)
   \<and> py_eq (VInt 0) (VFloat 0)"
proof (intro conjI impI)
  show "condition (conditional f g) = condition f"
    by (simp add: conditional_def init_def)
  show "call (conditional p_A p_B) [VStr ''B''] = Inr (VFloat 1)"
    by (simp add: call_conditional condition_holds_p_A call_p_A call_p_B ebind_def py_truediv_def)
  show "call (conditional p_A p_B) [VStr ''A''] = Inr (VInt 0)"
    by (simp add: call_conditional condition_holds_p_A call_p_A call_p_B ebind_def py_truediv_def)
qed (auto intro: conditional_quotient_case conditional_zero_case)

theorem conditional_quotient_witness:
  "(\<exists>r. call (conditional p_A p_B) [VStr ''B''] = Inr r \<and> py_eq r (VFloat 1))
   \<and> call (conditional p_B p_A) [VStr ''C''] = Inr (VInt 0)"
proof -
  have h1: "call p_A [VStr ''B''] = Inr (VFloat (1 / 2))
        \<and> call p_B [VStr ''B''] = Inr (VFloat (1 / 2))
        \<and> \<not> py_eq (VFloat (1 / 2)) (VInt 0)
        \<and> py_truediv (VFloat (1 / 2)) (VFloat (1 / 2)) = Inr (VFloat 1)"
    by (simp add: call_p_A call_p_B py_truediv_def)
  have h2: "call p_B [VStr ''C''] = Inr (VFloat (1 / 2)) \<and> call p_A [VStr ''C''] = Inr (VInt 0)
        \<and> py_eq (VInt 0) (VInt 0)"
    by (simp add: call_p_A call_p_B)
  from h1 conditional_quotient
    [where f = p_A and g = p_B and x = "VStr ''B''" and a = "VFloat (1 / 2)"
       and b = "VFloat (1 / 2)" and q = "VFloat 1"]
  have a: "\<exists>r. call (conditional p_A p_B) [VStr ''B''] = Inr r \<and> py_eq r (VFloat 1)"
    by blast
  from h2 conditional_quotient
    [where f = p_B and g = p_A and x = "VStr ''C''" and a = "VFloat (1 / 2)"
       and b = "VInt 0" and q = "VFloat 1"]
  have b: "call (conditional p_B p_A) [VStr ''C''] = Inr (VInt 0)"
    by blast
  from a b show ?thesis by blast
qed

section \<open>\<open>independent\<close> and \<open>dependent\<close>\<close>

lemma call_independent:
  "call (independent f g) [x] = ebind (call f [x]) (\<lambda>a. ebind (call g [x]) (\<lambda>b. py_add a b))"
  by (simp add: independent_def call_callable_no_condition)

lemma call_dependent_pair:
  "call (dependent f g) [VTuple [x, y]] =
     ebind (call f [x]) (\<lambda>a. ebind (call g [y]) (\<lambda>b. py_mul a b))"
  by (simp add: dependent_def call_callable_no_condition tuple_getitem_def ebind_def)

lemma call_dependent_single:
  "\<not> is_tuple x \<Longrightarrow>
   call (dependent f g) [x] = ebind (call f [x]) (\<lambda>a. ebind (call g [x]) (\<lambda>b. py_mul a b))"
  by (cases x) (simp_all add: dependent_def call_callable_no_condition)

text \<open>
  C3. \<open>f.independent(g)(x)\<close> is \<open>f(x) + g(x)\<close>, evaluated from left to right, with
  the exception of the first operand that raises. Where both return numbers \<open>p\<close> and
  \<open>q\<close> the result is the number \<open>p + q\<close>: no product is subtracted and nothing is
  clamped.
\<close>

theorem independent_plain_sum:
  "call (independent f g) [x] = ebind (call f [x]) (\<lambda>a. ebind (call g [x]) (\<lambda>b. py_add a b))
   \<and> (result_num (call f [x]) = Some p \<and> result_num (call g [x]) = Some q \<longrightarrow>
        result_num (call (independent f g) [x]) = Some (p + q))"
  by (simp add: call_independent result_num_add)

theorem independent_plain_sum_witness:
  "result_num (call (independent p_die p_coin) [VInt 3]) = Some (1 / 6 + 0)
   \<and> result_num (call (independent (init (Scalar (VFloat (3 / 4))) None)
        (init (Scalar (VFloat (3 / 4))) None)) [VInt 3]) = Some (3 / 4 + 3 / 4)"
proof -
  let ?k = "init (Scalar (VFloat (3 / 4))) None"
  have h1: "result_num (call p_die [VInt 3]) = Some (1 / 6)
            \<and> result_num (call p_coin [VInt 3]) = Some 0"
    by (simp add: call_p_die_int call_p_coin_int result_num_def)
  have h2: "result_num (call ?k [VInt 3]) = Some (3 / 4)
            \<and> result_num (call ?k [VInt 3]) = Some (3 / 4)"
    by (simp add: call_def init_def condition_holds_def result_num_def)
  from h1 independent_plain_sum [where f = p_die and g = p_coin and x = "VInt 3" and p = "1 / 6" and q = 0]
  have a: "result_num (call (independent p_die p_coin) [VInt 3]) = Some (1 / 6 + 0)"
    by blast
  from h2 independent_plain_sum [where f = ?k and g = ?k and x = "VInt 3" and p = "3 / 4" and q = "3 / 4"]
  have b: "result_num (call (independent ?k ?k) [VInt 3]) = Some (3 / 4 + 3 / 4)"
    by blast
  from a b show ?thesis by blast
qed

text \<open>
  C8. At a tuple \<open>(x, y)\<close>, \<open>f.dependent(g)\<close> returns \<open>f(x) * g(y)\<close>; at an input
  \<open>x\<close> that is no tuple it returns \<open>f(x) * g(x)\<close>. Where the operands return numbers
  \<open>p\<close> and \<open>q\<close> the result is the number \<open>p * q\<close>.
\<close>

theorem dependent_product:
  "call (dependent f g) [VTuple [x, y]] =
     ebind (call f [x]) (\<lambda>a. ebind (call g [y]) (\<lambda>b. py_mul a b))
   \<and> (\<not> is_tuple x \<longrightarrow>
        call (dependent f g) [x] =
          ebind (call f [x]) (\<lambda>a. ebind (call g [x]) (\<lambda>b. py_mul a b)))
   \<and> (result_num (call f [x]) = Some p \<and> result_num (call g [y]) = Some q \<longrightarrow>
        result_num (call (dependent f g) [VTuple [x, y]]) = Some (p * q))
   \<and> (\<not> is_tuple x \<and> result_num (call f [x]) = Some p \<and> result_num (call g [x]) = Some q \<longrightarrow>
        result_num (call (dependent f g) [x]) = Some (p * q))"
  by (simp add: call_dependent_pair call_dependent_single result_num_mul)

theorem dependent_product_witness:
  "result_num (call (dependent p_die p_coin) [VTuple [VInt 3, VStr ''H'']]) = Some (1 / 6 * (1 / 2))
   \<and> call (dependent p_die p_die) [VInt 3] =
       ebind (call p_die [VInt 3]) (\<lambda>a. ebind (call p_die [VInt 3]) (\<lambda>b. py_mul a b))
   \<and> result_num (call (dependent p_die p_die) [VInt 3]) = Some (1 / 6 * (1 / 6))"
proof -
  have h1: "result_num (call p_die [VInt 3]) = Some (1 / 6)
            \<and> result_num (call p_coin [VStr ''H'']) = Some (1 / 2)"
    by (simp add: call_p_die_int call_p_coin_str result_num_def)
  have h2: "\<not> is_tuple (VInt 3)"
    by simp
  have h3: "\<not> is_tuple (VInt 3) \<and> result_num (call p_die [VInt 3]) = Some (1 / 6)
            \<and> result_num (call p_die [VInt 3]) = Some (1 / 6)"
    by (simp add: call_p_die_int result_num_def)
  from h1 dependent_product [where f = p_die and g = p_coin and x = "VInt 3" and y = "VStr ''H''" and p = "1 / 6" and q = "1 / 2"]
  have a: "result_num (call (dependent p_die p_coin) [VTuple [VInt 3, VStr ''H'']])
           = Some (1 / 6 * (1 / 2))"
    by blast
  from h2 dependent_product [where f = p_die and g = p_die and x = "VInt 3" and y = "VInt 3" and p = "1 / 6" and q = "1 / 6"]
  have b: "call (dependent p_die p_die) [VInt 3] =
       ebind (call p_die [VInt 3]) (\<lambda>a. ebind (call p_die [VInt 3]) (\<lambda>b. py_mul a b))"
    by blast
  from h3 dependent_product [where f = p_die and g = p_die and x = "VInt 3" and y = "VInt 3" and p = "1 / 6" and q = "1 / 6"]
  have c: "result_num (call (dependent p_die p_die) [VInt 3]) = Some (1 / 6 * (1 / 6))"
    by blast
  from a b c show ?thesis by blast
qed

text \<open>
  C4. The die and the coin of the test combined by \<open>independent\<close> and called at the
  pair \<open>(3, 'H')\<close>. The claimed value 2/3 is the sum of the die at 3 and the coin at
  \<open>'H'\<close>, each called with its own component. The code returns no value there: the lambda
  of \<open>independent\<close> hands the whole pair to the die, whose test \<open>1 <= x\<close> compares an
  \<open>int\<close> with a tuple and raises \<open>TypeError\<close>. The sibling \<open>dependent\<close> takes the
  pair apart and returns a number at the same input, as the assertion at line 265 expects
  of the call.
\<close>

theorem die_coin_pair_raises:
  "call (independent p_die p_coin) [VTuple [VInt 3, VStr ''H'']] = Inl TypeError
   \<and> \<not> result_is (call (independent p_die p_coin) [VTuple [VInt 3, VStr ''H'']])
         (VFloat (2 / 3))
   \<and> ebind (call p_die [VInt 3]) (\<lambda>a. ebind (call p_coin [VStr ''H'']) (\<lambda>b. py_add a b))
       = Inr (VFloat (2 / 3))
   \<and> call (dependent p_die p_coin) [VTuple [VInt 3, VStr ''H'']] = Inr (VFloat (1 / 12))"
  by (simp add: call_independent call_dependent_pair call_p_die_tuple call_p_die_int
      call_p_coin_str ebind_def result_is_def py_mul_def)

text \<open>
  C10. The results of \<open>independent\<close> and \<open>dependent\<close> have no condition of their own.
  A condition of the operand \<open>f\<close> that is false at \<open>x\<close> acts inside the new evaluator:
  \<open>f\<close> contributes the \<open>int\<close> 0 there, and \<open>g\<close> is still called.
\<close>

theorem combined_without_condition:
  "condition (independent f g) = None
   \<and> condition (dependent f g) = None
   \<and> (condition f = Some c \<and> c [x] = Inr v \<and> \<not> truthy v \<longrightarrow>
        call (independent f g) [x] = ebind (call g [x]) (\<lambda>b. py_add (VInt 0) b))
   \<and> (condition f = Some c \<and> c [x] = Inr v \<and> \<not> truthy v \<and> \<not> is_tuple x \<longrightarrow>
        call (dependent f g) [x] = ebind (call g [x]) (\<lambda>b. py_mul (VInt 0) b))"
proof (intro conjI impI)
  show "condition (independent f g) = None"
    by (simp add: independent_def init_def)
  show "condition (dependent f g) = None"
    by (simp add: dependent_def init_def)
next
  assume "condition f = Some c \<and> c [x] = Inr v \<and> \<not> truthy v"
  then have "call f [x] = Inr (VInt 0)"
    by (simp add: call_def condition_holds_def split: evaluator.splits)
  then show "call (independent f g) [x] = ebind (call g [x]) (\<lambda>b. py_add (VInt 0) b)"
    by (simp add: call_independent ebind_def del: py_add.simps)
next
  assume h: "condition f = Some c \<and> c [x] = Inr v \<and> \<not> truthy v \<and> \<not> is_tuple x"
  then have "call f [x] = Inr (VInt 0)"
    by (simp add: call_def condition_holds_def split: evaluator.splits)
  with h show "call (dependent f g) [x] = ebind (call g [x]) (\<lambda>b. py_mul (VInt 0) b)"
    by (simp add: call_dependent_single ebind_def)
qed

theorem combined_without_condition_witness:
  "call (independent (given p_die (Some (ge_fn 4)) True) p_die) [VInt 3] = Inr (VFloat (1 / 6))
   \<and> call (dependent (given p_die (Some (ge_fn 4)) True) p_die) [VInt 3] = Inr (VFloat 0)"
proof -
  let ?f = "given p_die (Some (ge_fn 4)) True"
  have h1: "condition ?f = Some (ge_fn 4) \<and> ge_fn 4 [VInt 3] = Inr (VBool False)
            \<and> \<not> truthy (VBool False)"
    by (simp add: given_sets_condition init_def ge_fn_int)
  have h2: "condition ?f = Some (ge_fn 4) \<and> ge_fn 4 [VInt 3] = Inr (VBool False)
            \<and> \<not> truthy (VBool False) \<and> \<not> is_tuple (VInt 3)"
    by (simp add: given_sets_condition init_def ge_fn_int)
  from h1 combined_without_condition [where f = ?f and g = p_die and c = "ge_fn 4" and x = "VInt 3" and v = "VBool False"]
  have a: "call (independent ?f p_die) [VInt 3]
           = ebind (call p_die [VInt 3]) (\<lambda>b. py_add (VInt 0) b)"
    by blast
  from h2 combined_without_condition [where f = ?f and g = p_die and c = "ge_fn 4" and x = "VInt 3" and v = "VBool False"]
  have b: "call (dependent ?f p_die) [VInt 3]
           = ebind (call p_die [VInt 3]) (\<lambda>b. py_mul (VInt 0) b)"
    by blast
  from a b show ?thesis
    by (simp add: call_p_die_int ebind_def py_mul_def)
qed

section \<open>\<open>mutually_exclusive\<close>\<close>

text \<open>
  C5. \<open>f.mutually_exclusive(g)\<close> returns no probability function: the name
  \<open>independent\<close> is not bound at module level and the call raises \<open>NameError\<close>, for
  every \<open>f\<close> and \<open>g\<close>.
\<close>

theorem mutually_exclusive_raises:
  "mutually_exclusive f g = Inl NameError"
  by (simp add: mutually_exclusive_def module_globals_def)

text \<open>
  C7. An operation of the component signals failure under documented usage:
  \<open>mutually_exclusive\<close> applied to two constant probability functions raises
  \<open>NameError\<close>.
\<close>

theorem mutually_exclusive_signals_failure:
  "mutually_exclusive (init (Scalar (VFloat (1 / 2))) None) (init (Scalar (VFloat (1 / 4))) None)
     = Inl NameError"
  by (simp add: mutually_exclusive_def module_globals_def)

section \<open>\<open>given\<close>\<close>

text \<open>
  C6. With \<open>replace=False\<close> and a prior condition \<open>lambda x: 1 <= x\<close>, the condition
  \<open>lambda x: x <= 6\<close> given next replaces the prior one: at the input 0, where the prior
  condition is false and the new one is true, the new probability function returns its
  constant 1 and not 0.
\<close>

theorem given_keep_discards_prior:
  "ge_fn 1 [VInt 0] = Inr (VBool False)
   \<and> le_fn 6 [VInt 0] = Inr (VBool True)
   \<and> call (init (Scalar (VInt 1)) (Some (ge_fn 1))) [VInt 0] = Inr (VInt 0)
   \<and> call (given (init (Scalar (VInt 1)) (Some (ge_fn 1))) (Some (le_fn 6)) False) [VInt 0]
       = Inr (VInt 1)
   \<and> condition (given (init (Scalar (VInt 1)) (Some (ge_fn 1))) (Some (le_fn 6)) False)
       = Some (le_fn 6)"
  by (simp add: given_sets_condition ge_fn_int le_fn_int call_def init_def condition_holds_def)

section \<open>The range of composed results\<close>

lemma in_range_iff: "in_range lo hi r = (\<exists>q. result_num r = Some q \<and> lo \<le> q \<and> q \<le> hi)"
  by (simp add: in_range_def split: option.splits)

lemma py_eq_zero: "as_num b = Some n \<Longrightarrow> py_eq b (VInt 0) = (num_val n = 0)"
  by (cases b) auto

lemma py_eq_float: "py_eq r (VFloat z) \<Longrightarrow> \<exists>k. as_num r = Some k \<and> num_val k = z"
  by (cases r) (auto split: option.splits)

lemma py_truediv_num:
  "as_num a = Some m \<Longrightarrow> as_num b = Some n \<Longrightarrow> num_val n \<noteq> 0 \<Longrightarrow>
   py_truediv a b = Inr (VFloat (num_val m / num_val n))"
  by (simp add: py_truediv_def)

lemma result_num_conditional:
  assumes "result_num (call f [x]) = Some p" and "result_num (call g [x]) = Some q"
  shows "result_num (call (conditional f g) [x]) = Some (if q = 0 then 0 else p / q)"
proof -
  from assms(1) obtain a m where a: "call f [x] = Inr a" "as_num a = Some m" "num_val m = p"
    using result_num_Inr by blast
  from assms(2) obtain b n where b: "call g [x] = Inr b" "as_num b = Some n" "num_val n = q"
    using result_num_Inr by blast
  show ?thesis
  proof (cases "q = 0")
    case True
    with b have "py_eq b (VInt 0)"
      by (simp add: py_eq_zero)
    with a b have "call (conditional f g) [x] = Inr (VInt 0)"
      by (blast intro: conditional_zero_case)
    with True show ?thesis
      by (simp add: result_num_def)
  next
    case False
    with b have nz: "\<not> py_eq b (VInt 0)"
      by (simp add: py_eq_zero)
    from False a b have "py_truediv a b = Inr (VFloat (p / q))"
      by (simp add: py_truediv_num)
    with a b nz obtain r where r: "call (conditional f g) [x] = Inr r" "py_eq r (VFloat (p / q))"
      using conditional_quotient_case by blast
    from r(2) obtain k where "as_num r = Some k" "num_val k = p / q"
      using py_eq_float by blast
    with r(1) False show ?thesis
      by (simp add: result_num_def)
  qed
qed

lemma call_init_condition:
  "call (init ev (Some k)) args =
     (case k args of
        Inl e \<Rightarrow> Inl e
      | Inr v \<Rightarrow> (if truthy v then call (init ev None) args else Inr (VInt 0)))"
  by (simp add: call_def init_def condition_holds_def split: evaluator.splits sum.splits)

lemma in_range_zero: "lo \<le> 0 \<Longrightarrow> 0 \<le> hi \<Longrightarrow> in_range lo hi (Inr (VInt 0))"
  by (simp add: in_range_def result_num_def)

lemma given_in_unit:
  assumes ev: "in_range 0 1 (call (init (value' f) None) [x])"
    and c: "c = None \<or> (\<exists>k v. c = Some k \<and> k [x] = Inr v)"
  shows "in_range 0 1 (call (given f c r) [x])"
proof (cases c)
  case None
  with ev show ?thesis
    by (simp add: given_sets_condition)
next
  case (Some k)
  with c obtain v where "k [x] = Inr v"
    by auto
  with Some ev show ?thesis
    by (simp add: given_sets_condition call_init_condition in_range_zero)
qed

lemma unit_product: "0 \<le> p \<Longrightarrow> p \<le> 1 \<Longrightarrow> 0 \<le> q \<Longrightarrow> q \<le> 1 \<Longrightarrow> 0 \<le> p * q \<and> p * q \<le> (1::rat)"
  by (simp add: mult_le_one)

lemma unit_quotient: "0 \<le> p \<Longrightarrow> p \<le> q \<Longrightarrow> q \<noteq> 0 \<Longrightarrow> 0 \<le> p / q \<and> p / q \<le> (1::rat)"
  by (simp add: divide_le_eq)

lemma dependent_pair_in_unit:
  assumes "in_range 0 1 (call f [x])" and "in_range 0 1 (call g [y])"
  shows "in_range 0 1 (call (dependent f g) [VTuple [x, y]])"
proof -
  from assms obtain p q where "result_num (call f [x]) = Some p" "0 \<le> p" "p \<le> 1"
    "result_num (call g [y]) = Some q" "0 \<le> q" "q \<le> 1"
    by (auto simp: in_range_iff)
  then show ?thesis
    by (simp add: in_range_iff call_dependent_pair result_num_mul unit_product)
qed

lemma dependent_single_in_unit:
  assumes "\<not> is_tuple x" and "in_range 0 1 (call f [x])" and "in_range 0 1 (call g [x])"
  shows "in_range 0 1 (call (dependent f g) [x])"
proof -
  from assms obtain p q where "result_num (call f [x]) = Some p" "0 \<le> p" "p \<le> 1"
    "result_num (call g [x]) = Some q" "0 \<le> q" "q \<le> 1"
    by (auto simp: in_range_iff)
  with assms(1) show ?thesis
    by (simp add: in_range_iff call_dependent_single result_num_mul unit_product)
qed

lemma independent_in_double:
  assumes "in_range 0 1 (call f [x])" and "in_range 0 1 (call g [x])"
  shows "in_range 0 2 (call (independent f g) [x])"
proof -
  from assms obtain p q where "result_num (call f [x]) = Some p" "0 \<le> p" "p \<le> 1"
    "result_num (call g [x]) = Some q" "0 \<le> q" "q \<le> 1"
    by (auto simp: in_range_iff)
  then show ?thesis
    by (simp add: in_range_iff call_independent result_num_add)
qed

lemma conditional_in_unit:
  assumes "result_num (call f [x]) = Some p" and "result_num (call g [x]) = Some q"
    and "0 \<le> p" and "p \<le> q"
  shows "in_range 0 1 (call (conditional f g) [x])"
  using assms by (simp add: in_range_iff result_num_conditional unit_quotient)

lemma conditional_nonneg:
  assumes "in_range 0 1 (call f [x])" and "in_range 0 1 (call g [x])"
  shows "\<exists>r. result_num (call (conditional f g) [x]) = Some r \<and> 0 \<le> r"
proof -
  from assms obtain p q where "result_num (call f [x]) = Some p" "0 \<le> p"
    "result_num (call g [x]) = Some q" "0 \<le> q"
    by (auto simp: in_range_iff)
  then show ?thesis
    by (simp add: result_num_conditional)
qed

text \<open>
  C9, as stated: composed from probability functions whose values lie in [0,1], the result
  lies in [0,1]. Two constants 3/4 combined by \<open>independent\<close> give 3/2, and the
  constants 3/4 and 1/4 combined by \<open>conditional\<close> give 3.
\<close>

theorem composed_range_counterexample:
  "in_range 0 1 (call (init (Scalar (VFloat (3 / 4))) None) [VInt 3])
   \<and> in_range 0 1 (call (init (Scalar (VFloat (1 / 4))) None) [VInt 3])
   \<and> \<not> in_range 0 1
        (call (independent (init (Scalar (VFloat (3 / 4))) None)
           (init (Scalar (VFloat (3 / 4))) None)) [VInt 3])
   \<and> \<not> in_range 0 1
        (call (conditional (init (Scalar (VFloat (3 / 4))) None)
           (init (Scalar (VFloat (1 / 4))) None)) [VInt 3])"
proof -
  let ?a = "init (Scalar (VFloat (3 / 4))) None"
  let ?b = "init (Scalar (VFloat (1 / 4))) None"
  have a: "result_num (call ?a [VInt 3]) = Some (3 / 4)"
    by (simp add: call_def init_def condition_holds_def result_num_def)
  have b: "result_num (call ?b [VInt 3]) = Some (1 / 4)"
    by (simp add: call_def init_def condition_holds_def result_num_def)
  have s: "result_num (call (independent ?a ?a) [VInt 3]) = Some (3 / 4 + 3 / 4)"
    using a by (simp only: call_independent result_num_add)
  have d: "result_num (call (conditional ?a ?b) [VInt 3]) = Some (if (1 / 4 :: rat) = 0 then 0 else (3 / 4) / (1 / 4))"
    using a b by (rule result_num_conditional)
  from a b s d show ?thesis
    by (simp add: in_range_def)
qed

text \<open>
  C9, amended. No combinator clamps or validates. Where the evaluator of \<open>f\<close> returns a
  number in [0,1] at \<open>x\<close> and the new condition is absent or returns at \<open>x\<close>,
  \<open>f.given(c, replace)\<close> returns a number in [0,1]. Where \<open>f\<close> and \<open>g\<close> return
  numbers in [0,1] at their inputs, \<open>f.dependent(g)\<close> returns a number in [0,1],
  \<open>f.independent(g)\<close> returns a number in [0,2], and \<open>f.conditional(g)\<close> returns a
  number that is not negative, and that lies in [0,1] when \<open>f(x) <= g(x)\<close>.
\<close>

theorem composed_range:
  "(in_range 0 1 (call (init (value' f) None) [x])
      \<and> (c = None \<or> (\<exists>k v. c = Some k \<and> k [x] = Inr v)) \<longrightarrow>
      in_range 0 1 (call (given f c r) [x]))
   \<and> (in_range 0 1 (call f [x]) \<and> in_range 0 1 (call g [y]) \<longrightarrow>
      in_range 0 1 (call (dependent f g) [VTuple [x, y]]))
   \<and> (\<not> is_tuple x \<and> in_range 0 1 (call f [x]) \<and> in_range 0 1 (call g [x]) \<longrightarrow>
      in_range 0 1 (call (dependent f g) [x]))
   \<and> (in_range 0 1 (call f [x]) \<and> in_range 0 1 (call g [x]) \<longrightarrow>
      in_range 0 2 (call (independent f g) [x]))
   \<and> (in_range 0 1 (call f [x]) \<and> in_range 0 1 (call g [x]) \<longrightarrow>
      (\<exists>r. result_num (call (conditional f g) [x]) = Some r \<and> 0 \<le> r))
   \<and> (result_num (call f [x]) = Some p \<and> result_num (call g [x]) = Some q
      \<and> 0 \<le> p \<and> p \<le> q \<and> q \<le> 1 \<longrightarrow>
      in_range 0 1 (call (conditional f g) [x]))"
proof (intro conjI impI)
  assume "in_range 0 1 (call (init (value' f) None) [x])
      \<and> (c = None \<or> (\<exists>k v. c = Some k \<and> k [x] = Inr v))"
  then show "in_range 0 1 (call (given f c r) [x])"
    by (blast intro: given_in_unit)
next
  assume "in_range 0 1 (call f [x]) \<and> in_range 0 1 (call g [y])"
  then show "in_range 0 1 (call (dependent f g) [VTuple [x, y]])"
    by (blast intro: dependent_pair_in_unit)
next
  assume "\<not> is_tuple x \<and> in_range 0 1 (call f [x]) \<and> in_range 0 1 (call g [x])"
  then show "in_range 0 1 (call (dependent f g) [x])"
    by (blast intro: dependent_single_in_unit)
next
  assume "in_range 0 1 (call f [x]) \<and> in_range 0 1 (call g [x])"
  then show "in_range 0 2 (call (independent f g) [x])"
    by (blast intro: independent_in_double)
next
  assume "in_range 0 1 (call f [x]) \<and> in_range 0 1 (call g [x])"
  then show "\<exists>r. result_num (call (conditional f g) [x]) = Some r \<and> 0 \<le> r"
    by (blast intro: conditional_nonneg)
next
  assume "result_num (call f [x]) = Some p \<and> result_num (call g [x]) = Some q
      \<and> 0 \<le> p \<and> p \<le> q \<and> q \<le> 1"
  then show "in_range 0 1 (call (conditional f g) [x])"
    by (blast intro: conditional_in_unit)
qed

theorem composed_range_witness:
  "in_range 0 1 (call (given p_die (Some (ge_fn 4)) False) [VInt 5])
   \<and> in_range 0 1 (call (dependent p_die p_coin) [VTuple [VInt 3, VStr ''H'']])
   \<and> in_range 0 1 (call (dependent p_die p_coin) [VInt 3])
   \<and> in_range 0 2 (call (independent p_die p_coin) [VInt 3])
   \<and> (\<exists>r. result_num (call (conditional p_coin p_die) [VInt 3]) = Some r \<and> 0 \<le> r)
   \<and> in_range 0 1 (call (conditional p_A p_B) [VStr ''B''])"
proof -
  have die3: "result_num (call p_die [VInt 3]) = Some (1 / 6)"
    by (simp add: call_p_die_int result_num_def)
  have coin3: "result_num (call p_coin [VInt 3]) = Some 0"
    by (simp add: call_p_coin_int result_num_def)
  have coinH: "result_num (call p_coin [VStr ''H'']) = Some (1 / 2)"
    by (simp add: call_p_coin_str result_num_def)
  have h1: "in_range 0 1 (call (init (value' p_die) None) [VInt 5])
      \<and> (Some (ge_fn 4) = None \<or> (\<exists>k v. Some (ge_fn 4) = Some k \<and> k [VInt 5] = Inr v))"
    by (simp add: p_die_def init_def call_def condition_holds_def die_fn_int in_range_def
        result_num_def ge_fn_int)
  have h2: "in_range 0 1 (call p_die [VInt 3]) \<and> in_range 0 1 (call p_coin [VStr ''H''])"
    using die3 coinH by (simp add: in_range_def)
  have h3: "\<not> is_tuple (VInt 3) \<and> in_range 0 1 (call p_die [VInt 3])
      \<and> in_range 0 1 (call p_coin [VInt 3])"
    using die3 coin3 by (simp add: in_range_def)
  have h4: "in_range 0 1 (call p_die [VInt 3]) \<and> in_range 0 1 (call p_coin [VInt 3])"
    using die3 coin3 by (simp add: in_range_def)
  have h5: "in_range 0 1 (call p_coin [VInt 3]) \<and> in_range 0 1 (call p_die [VInt 3])"
    using die3 coin3 by (simp add: in_range_def)
  have h6: "result_num (call p_A [VStr ''B'']) = Some (1 / 2)
      \<and> result_num (call p_B [VStr ''B'']) = Some (1 / 2)
      \<and> (0::rat) \<le> 1 / 2 \<and> (1 / 2 :: rat) \<le> 1 / 2 \<and> (1 / 2 :: rat) \<le> 1"
    by (simp add: call_p_A call_p_B result_num_def)
  from h1 composed_range [where f = p_die and c = "Some (ge_fn 4)" and x = "VInt 5" and r = False]
  have a: "in_range 0 1 (call (given p_die (Some (ge_fn 4)) False) [VInt 5])"
    by blast
  from h2 composed_range [where f = p_die and g = p_coin and x = "VInt 3" and y = "VStr ''H''"]
  have b: "in_range 0 1 (call (dependent p_die p_coin) [VTuple [VInt 3, VStr ''H'']])"
    by blast
  from h3 composed_range [where f = p_die and g = p_coin and x = "VInt 3"]
  have c: "in_range 0 1 (call (dependent p_die p_coin) [VInt 3])"
    by blast
  from h4 composed_range [where f = p_die and g = p_coin and x = "VInt 3"]
  have d: "in_range 0 2 (call (independent p_die p_coin) [VInt 3])"
    by blast
  from h5 composed_range [where f = p_coin and g = p_die and x = "VInt 3"]
  have e: "\<exists>r. result_num (call (conditional p_coin p_die) [VInt 3]) = Some r \<and> 0 \<le> r"
    by blast
  from h6 composed_range [where f = p_A and g = p_B and x = "VStr ''B''" and p = "1 / 2"
      and q = "1 / 2"]
  have f: "in_range 0 1 (call (conditional p_A p_B) [VStr ''B''])"
    by blast
  from a b c d e f show ?thesis
    by blast
qed

end
